theory Spec2Isabelle
  imports Complex_Main "HOL-Library.Char_ord" "HOL-Library.List_Lexorder"
begin

section \<open>Concatenation of WAV files (audio\_player.py, lines 19--78)\<close>

text \<open>
  Times in seconds are Python floats; they are modelled as exact reals. A pydub
  \<open>AudioSegment\<close> is represented by what \<open>len()\<close> reports of it, its length in
  whole milliseconds; \<open>+\<close> on segments adds the lengths. Decoding a file
  (\<open>AudioSegment.from_wav\<close>) is a service outside the repository: it is the parameter
  \<open>from_wav\<close>, which gives the decoded segment or nothing when the file cannot be read.
  \<open>gap_seconds\<close> is a Python integer (default 3).
\<close>

datatype py_error = ValueError | DecodeError | OSError | AttributeError

datatype audio_segment = AudioSegment (len: nat)

definition empty_segment :: audio_segment where
  "empty_segment = AudioSegment 0"

text \<open>\<open>AudioSegment.silent(duration=d)\<close>, \<open>d\<close> in milliseconds: a negative duration
  gives no frames at all.\<close>

definition silent :: "int \<Rightarrow> audio_segment" where
  "silent duration = AudioSegment (nat duration)"

definition seg_add :: "audio_segment \<Rightarrow> audio_segment \<Rightarrow> audio_segment" where
  "seg_add a b = AudioSegment (len a + len b)"

text \<open>\<open>len(segment) / 1000.0\<close>.\<close>

definition seconds :: "audio_segment \<Rightarrow> real" where
  "seconds a = real (len a) / 1000"

text \<open>One dictionary of \<open>file_positions\<close>: keys \<open>'file'\<close>, \<open>'start'\<close>, \<open>'end'\<close>.\<close>

record file_info =
  fname :: string
  start :: real
  finish :: real

text \<open>\<open>os.path.basename\<close>: what follows the last slash.\<close>

definition basename :: "string \<Rightarrow> string" where
  "basename p = rev (takeWhile (\<lambda>c. c \<noteq> CHR ''/'') (rev p))"

text \<open>
  The loop of lines 52--71. The arguments after the list are the loop's variables:
  \<open>combined\<close>, \<open>file_positions\<close>, \<open>current_position\<close>. \<open>last_file\<close> is
  \<open>wav_files[-1]\<close>, which the loop compares with the path at hand.
\<close>

fun combine_loop ::
  "(string \<Rightarrow> audio_segment option) \<Rightarrow> int \<Rightarrow> audio_segment \<Rightarrow> string \<Rightarrow> string list \<Rightarrow>
   audio_segment \<Rightarrow> file_info list \<Rightarrow> real \<Rightarrow> py_error + (audio_segment \<times> file_info list)" where
  "combine_loop from_wav gap_seconds silence last_file [] combined file_positions current_position =
     Inr (combined, file_positions)"
| "combine_loop from_wav gap_seconds silence last_file (wav_file # rest) combined file_positions
     current_position =
     (case from_wav wav_file of
        None \<Rightarrow> Inl DecodeError
      | Some audio \<Rightarrow>
          (let combined1 = seg_add combined audio;
               file_positions1 = file_positions @
                 [\<lparr>fname = basename wav_file, start = current_position,
                   finish = seconds combined1\<rparr>];
               current_position1 = seconds combined1
           in if wav_file \<noteq> last_file
              then combine_loop from_wav gap_seconds silence last_file rest
                     (seg_add combined1 silence) file_positions1
                     (current_position1 + real_of_int gap_seconds)
              else combine_loop from_wav gap_seconds silence last_file rest
                     combined1 file_positions1 current_position1))"

definition combine_wav_files ::
  "(string \<Rightarrow> audio_segment option) \<Rightarrow> string list \<Rightarrow> int \<Rightarrow>
   py_error + (audio_segment \<times> file_info list)" where
  "combine_wav_files from_wav wav_files gap_seconds =
     (if wav_files = [] then Inl ValueError
      else combine_loop from_wav gap_seconds (silent (gap_seconds * 1000)) (last wav_files)
             wav_files empty_segment [] 0)"

text \<open>The sum of the durations of the files, in seconds, as the decoder reports them.\<close>

definition file_seconds :: "(string \<Rightarrow> audio_segment option) \<Rightarrow> string \<Rightarrow> real" where
  "file_seconds from_wav w = (case from_wav w of None \<Rightarrow> 0 | Some a \<Rightarrow> seconds a)"

definition sum_durations :: "(string \<Rightarrow> audio_segment option) \<Rightarrow> string list \<Rightarrow> real" where
  "sum_durations from_wav wav_files = sum_list (map (file_seconds from_wav) wav_files)"

section \<open>Position lookup (lines 143--148)\<close>

text \<open>The text returned when no entry holds the position, in UTF-8 (an unknown file).\<close>

definition unknown_file :: string where
  "unknown_file =
     [CHR 0xE4, CHR 0xB8, CHR 0x8D, CHR 0xE6, CHR 0x98, CHR 0x8E, CHR 0xE3, CHR 0x81, CHR 0xAA,
      CHR 0xE3, CHR 0x83, CHR 0x95, CHR 0xE3, CHR 0x82, CHR 0xA1, CHR 0xE3, CHR 0x82, CHR 0xA4,
      CHR 0xE3, CHR 0x83, CHR 0xAB]"

fun get_current_file :: "file_info list \<Rightarrow> real \<Rightarrow> string" where
  "get_current_file [] position = unknown_file"
| "get_current_file (file_info # rest) position =
     (if start file_info \<le> position \<and> position < finish file_info then fname file_info
      else get_current_file rest position)"

text \<open>The boundaries of the entries in the order of the list: start, end, start, end, ...\<close>

definition bounds :: "file_info list \<Rightarrow> real list" where
  "bounds file_positions = concat (map (\<lambda>e. [start e, finish e]) file_positions)"

text \<open>The state of the loop after one file: the merged audio and \<open>current_position\<close>.\<close>

definition next_combined ::
  "audio_segment \<Rightarrow> string \<Rightarrow> string \<Rightarrow> audio_segment \<Rightarrow> audio_segment \<Rightarrow> audio_segment" where
  "next_combined silence last_file wav_file combined audio =
     (if wav_file \<noteq> last_file then seg_add (seg_add combined audio) silence
      else seg_add combined audio)"

definition next_position ::
  "int \<Rightarrow> string \<Rightarrow> string \<Rightarrow> audio_segment \<Rightarrow> audio_segment \<Rightarrow> real" where
  "next_position gap_seconds last_file wav_file combined audio =
     (if wav_file \<noteq> last_file then seconds (seg_add combined audio) + real_of_int gap_seconds
      else seconds (seg_add combined audio))"

section \<open>Listing the folder (lines 19--25)\<close>

text \<open>
  \<open>os.listdir\<close> is the parameter \<open>listdir\<close>: the names in the folder, or nothing when
  the folder cannot be read. Strings are byte lists (UTF-8), whose lexicographic order is
  the order of Python's \<open>sorted\<close> on the decoded strings; \<open>lower\<close> acts on the ASCII
  letters, the only ones that matter for the suffix test.
\<close>

definition lower_char :: "char \<Rightarrow> char" where
  "lower_char c =
     (if CHR ''A'' \<le> c \<and> c \<le> CHR ''Z'' then char_of (of_char c + (32::nat)) else c)"

definition lower :: "string \<Rightarrow> string" where
  "lower s = map lower_char s"

definition endswith :: "string \<Rightarrow> string \<Rightarrow> bool" where
  "endswith s suffix =
     (length suffix \<le> length s \<and> drop (length s - length suffix) s = suffix)"

text \<open>\<open>os.path.join\<close> of a folder and one name.\<close>

definition path_join :: "string \<Rightarrow> string \<Rightarrow> string" where
  "path_join folder name =
     (if name \<noteq> [] \<and> hd name = CHR ''/'' then name
      else if folder = [] \<or> last folder = CHR ''/'' then folder @ name
      else folder @ ''/'' @ name)"

definition get_wav_files :: "(string \<Rightarrow> string list option) \<Rightarrow> string \<Rightarrow> py_error + string list" where
  "get_wav_files listdir folder =
     (case listdir folder of
        None \<Rightarrow> Inl OSError
      | Some names \<Rightarrow>
          Inr (sort (map (path_join folder)
                 (filter (\<lambda>file. endswith (lower file) ''.wav'') names))))"

section \<open>The player (lines 81--293)\<close>

text \<open>
  The widgets are part of the player's state: the face of the play button (its description
  and icon change together), the value of the position slider and the text of the label.
  What the player hands to the world outside is recorded, in order, in \<open>effects\<close>.
  The label texts are Japanese sentences; each is a constructor here, with the file name
  where the sentence carries one.
\<close>

datatype button_face = Play_face | Pause_face

datatype label_text =
    Ready_text
  | Finished_text
  | Playing_text string
  | Prepared_text string
  | Stopped_text
  | Limited_text

text \<open>\<open>sa.WaveObject\<close> built from the frames of the merged file from \<open>first_frame\<close> on.\<close>

datatype wave_object = WaveObject (first_frame: nat) (frame_count: nat)

datatype effect =
    Sa_play wave_object
  | Sa_stop
  | Display_audio string
  | Print_error
  | Thread_start

datatype console_line = Warning_no_wav | Found_files nat

text \<open>
  \<open>frame_rate\<close> and \<open>n_frames\<close> are the header of the WAV file written at
  \<open>output_path\<close>, as \<open>wave.open\<close> reads it. \<open>start_position\<close> and \<open>start_time\<close>
  are attributes that \<open>play\<close> sets; nothing reads them before.
  \<open>progress_thread\<close> is \<open>None\<close>, or a thread with what \<open>is_alive()\<close> answers.
\<close>

record player =
  wav_files :: "string list"
  combined_audio :: audio_segment
  file_positions :: "file_info list"
  output_path :: string
  frame_rate :: nat
  n_frames :: nat
  playing :: bool
  play_obj :: "wave_object option"
  current_position :: real
  current_file_name :: string
  play_button :: button_face
  slider_value :: real
  file_label :: label_text
  progress_thread :: "bool option"
  start_position :: real
  start_time :: real
  effects :: "effect list"

text \<open>An object of class \<open>AudioPlayer\<close>: with \<open>wav_files\<close> as its only attribute
  (the early return of line 86), or fully set up.\<close>

datatype audio_player = Bare "string list" | Ready player

text \<open>
  \<open>__init__\<close>. Writing the merged audio to the temporary file is outside the repository:
  \<open>export\<close> gives the frame rate and the number of frames of the file written.
\<close>

definition AudioPlayer_init ::
  "(string \<Rightarrow> string list option) \<Rightarrow> (string \<Rightarrow> audio_segment option) \<Rightarrow>
   (audio_segment \<Rightarrow> nat \<times> nat) \<Rightarrow> string \<Rightarrow> string \<Rightarrow> int \<Rightarrow>
   py_error + (console_line list \<times> audio_player)" where
  "AudioPlayer_init listdir from_wav export temp_name folder gap_seconds =
     (case get_wav_files listdir folder of
        Inl e \<Rightarrow> Inl e
      | Inr files \<Rightarrow>
          if files = [] then Inr ([Warning_no_wav], Bare files)
          else
            (case combine_wav_files from_wav files gap_seconds of
               Inl e \<Rightarrow> Inl e
             | Inr (combined, positions) \<Rightarrow>
                 Inr ([Found_files (length files)],
                      Ready \<lparr>wav_files = files, combined_audio = combined,
                        file_positions = positions, output_path = temp_name,
                        frame_rate = fst (export combined), n_frames = snd (export combined),
                        playing = False, play_obj = None, current_position = 0,
                        current_file_name = [], play_button = Play_face, slider_value = 0,
                        file_label = Ready_text, progress_thread = None,
                        start_position = 0, start_time = 0, effects = []\<rparr>)))"

text \<open>\<open>create_audio_player\<close>: \<open>display\<close> reads the widgets, which a bare object lacks.\<close>

definition create_audio_player ::
  "(string \<Rightarrow> string list option) \<Rightarrow> (string \<Rightarrow> audio_segment option) \<Rightarrow>
   (audio_segment \<Rightarrow> nat \<times> nat) \<Rightarrow> string \<Rightarrow> string \<Rightarrow> int \<Rightarrow>
   py_error + (console_line list \<times> audio_player)" where
  "create_audio_player listdir from_wav export temp_name folder gap_seconds =
     (case AudioPlayer_init listdir from_wav export temp_name folder gap_seconds of
        Inl e \<Rightarrow> Inl e
      | Inr (out, Bare files) \<Rightarrow> Inl AttributeError
      | Inr (out, Ready p) \<Rightarrow> Inr (out, Ready p))"

text \<open>Python's \<open>int()\<close> of a float: towards zero.\<close>

definition int_of_float :: "real \<Rightarrow> int" where
  "int_of_float x = (if 0 \<le> x then \<lfloor>x\<rfloor> else \<lceil>x\<rceil>)"

text \<open>
  \<open>_create_wav_obj_from_position\<close>: \<open>setpos\<close> raises for a frame outside
  \<open>0 .. n_frames\<close>; the handler prints the error and returns \<open>None\<close> (the caller below
  records the print).
\<close>

definition create_wav_obj_from_position :: "player \<Rightarrow> real \<Rightarrow> wave_object option" where
  "create_wav_obj_from_position s position_seconds =
     (let start_frame = int_of_float (position_seconds * real (frame_rate s))
      in if start_frame < 0 \<or> int (n_frames s) < start_frame then None
         else Some (WaveObject (nat start_frame) (n_frames s - nat start_frame)))"

definition pause :: "bool \<Rightarrow> player \<Rightarrow> player" where
  "pause HAVE_SIMPLEAUDIO s =
     (if \<not> playing s then s
      else
        (let s1 = s\<lparr>playing := False, play_button := Play_face\<rparr>
         in if HAVE_SIMPLEAUDIO \<and> play_obj s1 \<noteq> None
            then s1\<lparr>effects := effects s1 @ [Sa_stop]\<rparr>
            else s1))"

text \<open>\<open>play\<close>; \<open>now\<close> is what \<open>time.time()\<close> returns.\<close>

definition play :: "bool \<Rightarrow> real \<Rightarrow> player \<Rightarrow> player" where
  "play HAVE_SIMPLEAUDIO now s =
     (if playing s then s
      else
        (let s1 = s\<lparr>playing := True, play_button := Pause_face,
                    start_position := slider_value s, start_time := now\<rparr>
         in if HAVE_SIMPLEAUDIO
            then
              (case create_wav_obj_from_position s1 (start_position s1) of
                 None \<Rightarrow> s1\<lparr>effects := effects s1 @ [Print_error]\<rparr>
               | Some wav_obj \<Rightarrow>
                   (let s2 = s1\<lparr>play_obj := Some wav_obj,
                                effects := effects s1 @ [Sa_play wav_obj]\<rparr>
                    in if progress_thread s2 = None \<or> progress_thread s2 = Some False
                       then s2\<lparr>progress_thread := Some True,
                               effects := effects s2 @ [Thread_start]\<rparr>
                       else s2))
            else s1\<lparr>file_label := Limited_text,
                    effects := effects s1 @ [Display_audio (output_path s1)]\<rparr>))"

definition toggle_play :: "bool \<Rightarrow> real \<Rightarrow> player \<Rightarrow> player" where
  "toggle_play HAVE_SIMPLEAUDIO now s =
     (if playing s then pause HAVE_SIMPLEAUDIO s else play HAVE_SIMPLEAUDIO now s)"

text \<open>\<open>on_position_change\<close>; \<open>new\<close> is \<open>change['new']\<close>.\<close>

definition on_position_change :: "bool \<Rightarrow> real \<Rightarrow> real \<Rightarrow> player \<Rightarrow> player" where
  "on_position_change HAVE_SIMPLEAUDIO now new s =
     (if \<not> playing s
      then
        (let s1 = s\<lparr>current_position := new\<rparr>;
             s2 = s1\<lparr>current_file_name :=
                        get_current_file (file_positions s1) (current_position s1)\<rparr>
         in s2\<lparr>file_label := Prepared_text (current_file_name s2)\<rparr>)
      else
        (let s1 = pause HAVE_SIMPLEAUDIO s;
             s2 = s1\<lparr>current_position := new\<rparr>
         in play HAVE_SIMPLEAUDIO now s2))"

text \<open>
  An assignment to \<open>position_slider.value\<close>, by the user's drag or by the program. The
  slider was built with \<open>min=0\<close> and \<open>max=len(combined_audio) / 1000.0\<close> (lines 126--128)
  and keeps its value between them; \<open>on_position_change\<close> was registered as the observer
  of the value (line 137) and runs whenever the value changes.
\<close>

definition set_slider_value :: "bool \<Rightarrow> real \<Rightarrow> real \<Rightarrow> player \<Rightarrow> player" where
  "set_slider_value HAVE_SIMPLEAUDIO now v s =
     (let v1 = min (max v 0) (seconds (combined_audio s))
      in if v1 = slider_value s then s
         else on_position_change HAVE_SIMPLEAUDIO now v1 (s\<lparr>slider_value := v1\<rparr>))"

definition stop :: "bool \<Rightarrow> real \<Rightarrow> player \<Rightarrow> player" where
  "stop HAVE_SIMPLEAUDIO now s =
     (let s1 = pause HAVE_SIMPLEAUDIO s;
          s2 = set_slider_value HAVE_SIMPLEAUDIO now 0 s1;
          s3 = s2\<lparr>current_position := 0\<rparr>
      in s3\<lparr>file_label := Stopped_text\<rparr>)"

text \<open>
  One turn of the loop of \<open>update_progress\<close>, its test included. \<open>is_playing\<close> is the
  answer of \<open>play_obj.is_playing()\<close>. The result says whether the loop goes on to the
  next test; when it does not, the thread ends.
\<close>

definition update_progress_step :: "bool \<Rightarrow> real \<Rightarrow> bool \<Rightarrow> player \<Rightarrow> bool \<times> player" where
  "update_progress_step HAVE_SIMPLEAUDIO now is_playing s =
     (if \<not> playing s then (False, s\<lparr>progress_thread := Some False\<rparr>)
      else if \<not> HAVE_SIMPLEAUDIO \<or> play_obj s = None
      then (False, s\<lparr>progress_thread := Some False\<rparr>)
      else if \<not> is_playing
      then (False, s\<lparr>playing := False, play_button := Play_face,
                      file_label := Finished_text, progress_thread := Some False\<rparr>)
      else
        (let elapsed = now - start_time s;
             s1 = s\<lparr>current_position := start_position s + elapsed\<rparr>;
             s2 = (if seconds (combined_audio s1) \<le> current_position s1
                   then s1\<lparr>current_position := seconds (combined_audio s1), playing := False\<rparr>
                   else s1);
             s3 = set_slider_value HAVE_SIMPLEAUDIO now (current_position s2) s2;
             s4 = s3\<lparr>current_file_name :=
                        get_current_file (file_positions s3) (current_position s3)\<rparr>
         in (True, s4\<lparr>file_label := Playing_text (current_file_name s4)\<rparr>)))"

text \<open>The loop, over the successive readings of the clock and of \<open>is_playing()\<close>.\<close>

fun update_progress :: "bool \<Rightarrow> (real \<times> bool) list \<Rightarrow> player \<Rightarrow> player" where
  "update_progress HAVE_SIMPLEAUDIO [] s = s"
| "update_progress HAVE_SIMPLEAUDIO ((now, is_playing) # ticks) s =
     (case update_progress_step HAVE_SIMPLEAUDIO now is_playing s of
        (True, s1) \<Rightarrow> update_progress HAVE_SIMPLEAUDIO ticks s1
      | (False, s1) \<Rightarrow> s1)"

text \<open>The words of the specification for \<open>stop\<close>: \<open>pause\<close>, then the current offset
  is set to 0.\<close>

definition pause_then_reset :: "bool \<Rightarrow> player \<Rightarrow> player" where
  "pause_then_reset HAVE_SIMPLEAUDIO s = (pause HAVE_SIMPLEAUDIO s)\<lparr>current_position := 0\<rparr>"

text \<open>What a session shows of its course: whether it plays, the current offset, and what
  it has asked of the playback services.\<close>

definition observe :: "player \<Rightarrow> bool \<times> real \<times> effect list" where
  "observe s = (playing s, current_position s, effects s)"

section \<open>Sample data\<close>

definition sample_wav :: "string \<Rightarrow> audio_segment option" where
  "sample_wav w =
     (if w = ''out/a.wav'' then Some (AudioSegment 2000)
      else if w = ''out/b.wav'' then Some (AudioSegment 3500)
      else if w = ''out/c.wav'' then Some (AudioSegment 1000)
      else None)"

definition sample_files :: "string list" where
  "sample_files = [''out/a.wav'', ''out/b.wav'', ''out/c.wav'']"

definition sample_positions :: "file_info list" where
  "sample_positions =
     [\<lparr>fname = ''a.wav'', start = 0, finish = 2\<rparr>,
      \<lparr>fname = ''b.wav'', start = 5, finish = 17 / 2\<rparr>,
      \<lparr>fname = ''c.wav'', start = 23 / 2, finish = 25 / 2\<rparr>]"

definition repeated_files :: "string list" where
  "repeated_files = [''out/a.wav'', ''out/b.wav'', ''out/a.wav'']"

definition repeated_positions :: "file_info list" where
  "repeated_positions =
     [\<lparr>fname = ''a.wav'', start = 0, finish = 2\<rparr>,
      \<lparr>fname = ''b.wav'', start = 2, finish = 11 / 2\<rparr>,
      \<lparr>fname = ''a.wav'', start = 17 / 2, finish = 21 / 2\<rparr>]"

text \<open>A folder with three recordings and one other file, and a folder without recordings.\<close>

definition sample_listdir :: "string \<Rightarrow> string list option" where
  "sample_listdir folder =
     (if folder = ''out'' then Some [''c.wav'', ''notes.txt'', ''a.wav'', ''b.wav'']
      else if folder = ''empty'' then Some [''notes.txt'']
      else None)"

text \<open>An export at 1000 frames a second: one frame for each millisecond.\<close>

definition sample_export :: "audio_segment \<Rightarrow> nat \<times> nat" where
  "sample_export a = (1000, len a)"

definition sample_player :: player where
  "sample_player =
     \<lparr>wav_files = sample_files, combined_audio = AudioSegment 12500,
      file_positions = sample_positions, output_path = ''tmp.wav'',
      frame_rate = 1000, n_frames = 12500,
      playing = False, play_obj = None, current_position = 0,
      current_file_name = [], play_button = Play_face, slider_value = 0,
      file_label = Ready_text, progress_thread = None,
      start_position = 0, start_time = 0, effects = []\<rparr>"

text \<open>The sample player six seconds into playback from the start.\<close>

definition ticking_player :: player where
  "ticking_player = sample_player\<lparr>playing := True, play_obj := Some (WaveObject 0 12500),
     start_position := 0, start_time := 100, progress_thread := Some True\<rparr>"

section \<open>Properties of the concatenation\<close>

lemma loop_append:
  "combine_loop f g sil lf ws c fps cur =
     (case combine_loop f g sil lf ws c [] cur of
        Inl e \<Rightarrow> Inl e | Inr (c', r) \<Rightarrow> Inr (c', fps @ r))"
proof (induction ws arbitrary: c fps cur)
  case Nil
  show ?case by simp
next
  case (Cons w rest)
  show ?case
  proof (cases "f w")
    case None
    then show ?thesis by simp
  next
    case (Some a)
    let ?e = "\<lparr>fname = basename w, start = cur, finish = seconds (seg_add c a)\<rparr>"
    show ?thesis
    proof (cases "w = lf")
      case True
      have "combine_loop f g sil lf (w # rest) c fps cur =
            combine_loop f g sil lf rest (seg_add c a) (fps @ [?e]) (seconds (seg_add c a))"
        using Some True by (simp add: Let_def)
      moreover have "combine_loop f g sil lf (w # rest) c [] cur =
            combine_loop f g sil lf rest (seg_add c a) [?e] (seconds (seg_add c a))"
        using Some True by (simp add: Let_def)
      ultimately show ?thesis
        using Cons.IH [of "seg_add c a" "fps @ [?e]" "seconds (seg_add c a)"]
              Cons.IH [of "seg_add c a" "[?e]" "seconds (seg_add c a)"]
        by (auto split: sum.splits)
    next
      case False
      have "combine_loop f g sil lf (w # rest) c fps cur =
            combine_loop f g sil lf rest (seg_add (seg_add c a) sil) (fps @ [?e])
              (seconds (seg_add c a) + real_of_int g)"
        using Some False by (simp add: Let_def)
      moreover have "combine_loop f g sil lf (w # rest) c [] cur =
            combine_loop f g sil lf rest (seg_add (seg_add c a) sil) [?e]
              (seconds (seg_add c a) + real_of_int g)"
        using Some False by (simp add: Let_def)
      ultimately show ?thesis
        using Cons.IH [of "seg_add (seg_add c a) sil" "fps @ [?e]" "seconds (seg_add c a) + real_of_int g"]
              Cons.IH [of "seg_add (seg_add c a) sil" "[?e]" "seconds (seg_add c a) + real_of_int g"]
        by (auto split: sum.splits)
    qed
  qed
qed

lemma loop_Cons:
  assumes "combine_loop f g sil lf (w # rest) c [] cur = Inr (c', r)"
  obtains a r' where "f w = Some a"
    and "r = \<lparr>fname = basename w, start = cur, finish = seconds (seg_add c a)\<rparr> # r'"
    and "combine_loop f g sil lf rest (next_combined sil lf w c a) [] (next_position g lf w c a)
           = Inr (c', r')"
proof (cases "f w")
  case None
  with assms show ?thesis by simp
next
  case (Some a)
  let ?e = "\<lparr>fname = basename w, start = cur, finish = seconds (seg_add c a)\<rparr>"
  have "combine_loop f g sil lf (w # rest) c [] cur =
        combine_loop f g sil lf rest (next_combined sil lf w c a) [?e] (next_position g lf w c a)"
    using Some by (simp add: Let_def next_combined_def next_position_def)
  with assms have "combine_loop f g sil lf rest (next_combined sil lf w c a) [?e]
      (next_position g lf w c a) = Inr (c', r)" by simp
  then obtain r' where "combine_loop f g sil lf rest (next_combined sil lf w c a) []
      (next_position g lf w c a) = Inr (c', r')" and "r = [?e] @ r'"
    by (subst (asm) loop_append) (auto split: sum.splits)
  with Some that show ?thesis by simp
qed

lemma seconds_seg_add: "seconds (seg_add a b) = seconds a + seconds b"
  by (simp add: seconds_def seg_add_def add_divide_distrib)

lemma seconds_nonneg: "0 \<le> seconds a"
  by (simp add: seconds_def)

lemma seconds_silent: "0 \<le> g \<Longrightarrow> seconds (silent (g * 1000)) = real_of_int g"
  by (simp add: seconds_def silent_def)

lemma next_position_eq:
  "0 \<le> g \<Longrightarrow> next_position g lf w c a = seconds (next_combined (silent (g * 1000)) lf w c a)"
  by (simp add: next_position_def next_combined_def seconds_seg_add seconds_silent)

lemma loop_length:
  "combine_loop f g sil lf ws c [] cur = Inr (c', r) \<Longrightarrow> length r = length ws"
proof (induction ws arbitrary: c cur r)
  case Nil
  then show ?case by simp
next
  case (Cons w rest)
  from Cons.prems show ?case
    by (rule loop_Cons) (simp add: Cons.IH)
qed

lemma loop_fname:
  "combine_loop f g sil lf ws c [] cur = Inr (c', r) \<Longrightarrow> i < length ws \<Longrightarrow>
   fname (r ! i) = basename (ws ! i)"
proof (induction ws arbitrary: c cur r i)
  case Nil
  then show ?case by simp
next
  case (Cons w rest)
  from Cons.prems(1) show ?case
  proof (rule loop_Cons)
    fix a r'
    assume r: "r = \<lparr>fname = basename w, start = cur, finish = seconds (seg_add c a)\<rparr> # r'"
      and rest: "combine_loop f g sil lf rest (next_combined sil lf w c a) []
                   (next_position g lf w c a) = Inr (c', r')"
    show ?thesis
    proof (cases i)
      case 0
      with r show ?thesis by simp
    next
      case (Suc k)
      with Cons.prems(2) have "k < length rest" by simp
      from Cons.IH [OF rest this] r Suc show ?thesis by simp
    qed
  qed
qed

lemma loop_total:
  "combine_loop f g sil lf ws c [] cur = Inr (c', r) \<Longrightarrow>
   seconds c' = seconds c + sum_durations f ws
                + seconds sil * real (length (filter (\<lambda>w. w \<noteq> lf) ws))"
proof (induction ws arbitrary: c cur r)
  case Nil
  then show ?case by (simp add: sum_durations_def)
next
  case (Cons w rest)
  from Cons.prems show ?case
  proof (rule loop_Cons)
    fix a r'
    assume fw: "f w = Some a"
      and rest: "combine_loop f g sil lf rest (next_combined sil lf w c a) []
                   (next_position g lf w c a) = Inr (c', r')"
    have "sum_durations f (w # rest) = seconds a + sum_durations f rest"
      using fw by (simp add: sum_durations_def file_seconds_def)
    with Cons.IH [OF rest] show ?thesis
      by (simp add: next_combined_def seconds_seg_add algebra_simps)
  qed
qed

lemma loop_first_start:
  "combine_loop f g sil lf (w # rest) c [] cur = Inr (c', r) \<Longrightarrow> start (r ! 0) = cur"
  by (erule loop_Cons) simp

lemma loop_next_start:
  "combine_loop f g sil lf ws c [] cur = Inr (c', r) \<Longrightarrow> Suc i < length ws \<Longrightarrow>
   start (r ! Suc i) = finish (r ! i) + (if ws ! i \<noteq> lf then real_of_int g else 0)"
proof (induction ws arbitrary: c cur r i)
  case Nil
  then show ?case by simp
next
  case (Cons w rest)
  from Cons.prems(1) show ?case
  proof (rule loop_Cons)
    fix a r'
    assume r: "r = \<lparr>fname = basename w, start = cur, finish = seconds (seg_add c a)\<rparr> # r'"
      and rest: "combine_loop f g sil lf rest (next_combined sil lf w c a) []
                   (next_position g lf w c a) = Inr (c', r')"
    show ?thesis
    proof (cases i)
      case 0
      with Cons.prems(2) obtain w' rest' where "rest = w' # rest'"
        by (cases rest) auto
      with rest have "start (r' ! 0) = next_position g lf w c a"
        by (simp add: loop_first_start)
      with r 0 show ?thesis by (simp add: next_position_def)
    next
      case (Suc k)
      with Cons.prems(2) have "Suc k < length rest" by simp
      from Cons.IH [OF rest this] r Suc show ?thesis by simp
    qed
  qed
qed

lemma loop_sorted:
  "combine_loop f g (silent (g * 1000)) lf ws c [] (seconds c) = Inr (c', r) \<Longrightarrow> 0 \<le> g \<Longrightarrow>
   sorted (seconds c # bounds r @ [seconds c'])"
proof (induction ws arbitrary: c r)
  case Nil
  then show ?case by (simp add: bounds_def)
next
  case (Cons w rest)
  from Cons.prems(1) show ?case
  proof (rule loop_Cons)
    fix a r'
    let ?c2 = "next_combined (silent (g * 1000)) lf w c a"
    assume r: "r = \<lparr>fname = basename w, start = seconds c, finish = seconds (seg_add c a)\<rparr> # r'"
      and rest: "combine_loop f g (silent (g * 1000)) lf rest ?c2 []
                   (next_position g lf w c a) = Inr (c', r')"
    from rest Cons.prems(2) have "combine_loop f g (silent (g * 1000)) lf rest ?c2 []
                   (seconds ?c2) = Inr (c', r')"
      by (simp add: next_position_eq)
    from Cons.IH [OF this Cons.prems(2)]
    have srt: "sorted (seconds ?c2 # bounds r' @ [seconds c'])" .
    have le1: "seconds c \<le> seconds (seg_add c a)"
      by (simp add: seconds_seg_add seconds_nonneg)
    have le2: "seconds (seg_add c a) \<le> seconds ?c2"
      by (simp add: next_combined_def seconds_seg_add seconds_nonneg)
    have b: "bounds r = seconds c # seconds (seg_add c a) # bounds r'"
      using r by (simp add: bounds_def)
    from srt le1 le2 show ?thesis
      unfolding b by (auto simp: sorted_append)
  qed
qed

lemma loop_positive:
  "combine_loop f g (silent (g * 1000)) lf ws c [] (seconds c) = Inr (c', r) \<Longrightarrow> 0 \<le> g \<Longrightarrow>
   \<forall>w\<in>set ws. f w \<noteq> Some (AudioSegment 0) \<Longrightarrow> e \<in> set r \<Longrightarrow> start e < finish e"
proof (induction ws arbitrary: c r)
  case Nil
  then show ?case by simp
next
  case (Cons w rest)
  from Cons.prems(1) show ?case
  proof (rule loop_Cons)
    fix a r'
    let ?c2 = "next_combined (silent (g * 1000)) lf w c a"
    assume fw: "f w = Some a"
      and r: "r = \<lparr>fname = basename w, start = seconds c, finish = seconds (seg_add c a)\<rparr> # r'"
      and rest: "combine_loop f g (silent (g * 1000)) lf rest ?c2 []
                   (next_position g lf w c a) = Inr (c', r')"
    from rest Cons.prems(2) have rest': "combine_loop f g (silent (g * 1000)) lf rest ?c2 []
                   (seconds ?c2) = Inr (c', r')"
      by (simp add: next_position_eq)
    from fw Cons.prems(3) have "a \<noteq> AudioSegment 0" by auto
    then have "0 < len a" by (cases a) simp
    then have pos: "seconds c < seconds (seg_add c a)"
      by (simp add: seg_add_def seconds_def)
    from Cons.prems(4) r consider "e = \<lparr>fname = basename w, start = seconds c, finish = seconds (seg_add c a)\<rparr>" | "e \<in> set r'"
      by auto
    then show ?thesis
    proof cases
      case 1
      with pos show ?thesis by simp
    next
      case 2
      from Cons.prems(3) have "\<forall>w\<in>set rest. f w \<noteq> Some (AudioSegment 0)" by simp
      from Cons.IH [OF rest' Cons.prems(2) this 2] show ?thesis .
    qed
  qed
qed

lemma bounds_Nil: "bounds [] = []"
  by (simp add: bounds_def)

lemma bounds_Cons: "bounds (e # fps) = start e # finish e # bounds fps"
  by (simp add: bounds_def)

lemma in_bounds: "e \<in> set fps \<Longrightarrow> start e \<in> set (bounds fps) \<and> finish e \<in> set (bounds fps)"
  by (auto simp: bounds_def)

lemma sorted_bounds_nth:
  "sorted (bounds fps) \<Longrightarrow> i < j \<Longrightarrow> j < length fps \<Longrightarrow> finish (fps ! i) \<le> start (fps ! j)"
proof (induction fps arbitrary: i j)
  case Nil
  then show ?case by simp
next
  case (Cons e fps)
  from Cons.prems(2) obtain k where j: "j = Suc k" by (cases j) auto
  with Cons.prems(3) have k: "k < length fps" by simp
  show ?case
  proof (cases i)
    case 0
    from k have "start (fps ! k) \<in> set (bounds fps)" by (simp add: in_bounds)
    with Cons.prems(1) have "finish e \<le> start (fps ! k)" by (simp add: bounds_Cons)
    with 0 j show ?thesis by simp
  next
    case (Suc m)
    from Cons.prems(1) have "sorted (bounds fps)" by (simp add: bounds_Cons)
    from Cons.IH [OF this, of m k] Suc j Cons.prems(2) k show ?thesis by simp
  qed
qed

lemma sorted_bounds_entry:
  "sorted (bounds fps) \<Longrightarrow> e \<in> set fps \<Longrightarrow> start e \<le> finish e"
  by (induction fps) (auto simp: bounds_Cons)

lemma sorted_bounds_starts: "sorted (bounds fps) \<Longrightarrow> sorted (map start fps)"
proof (induction fps)
  case Nil
  then show ?case by simp
next
  case (Cons e fps)
  then have "\<forall>y\<in>set (bounds fps). start e \<le> y" and "sorted (bounds fps)"
    by (auto simp: bounds_Cons)
  with Cons.IH show ?case by (auto simp: in_bounds)
qed

lemma sorted_bounds_between:
  "sorted (lo # bounds fps @ [hi]) \<Longrightarrow> e \<in> set fps \<Longrightarrow> lo \<le> start e \<and> finish e \<le> hi"
  by (auto simp: sorted_append dest: in_bounds)

lemma get_current_file_miss:
  "\<forall>e\<in>set fps. \<not> (start e \<le> x \<and> x < finish e) \<Longrightarrow> get_current_file fps x = unknown_file"
  by (induction fps) auto

lemma get_current_file_hit:
  "sorted (bounds fps) \<Longrightarrow> i < length fps \<Longrightarrow> start (fps ! i) \<le> x \<Longrightarrow> x < finish (fps ! i) \<Longrightarrow>
   get_current_file fps x = fname (fps ! i)"
proof (induction fps arbitrary: i)
  case Nil
  then show ?case by simp
next
  case (Cons e fps)
  show ?case
  proof (cases i)
    case 0
    with Cons.prems show ?thesis by simp
  next
    case (Suc k)
    with Cons.prems(2) have k: "k < length fps" by simp
    from sorted_bounds_nth [OF Cons.prems(1), of 0 i] Suc Cons.prems(2)
    have "finish e \<le> start (fps ! k)" by simp
    with Cons.prems(3) Suc have miss: "\<not> x < finish e" by simp
    from Cons.prems(1) have "sorted (bounds fps)" by (simp add: bounds_Cons)
    from Cons.IH [OF this k] Cons.prems(3,4) Suc miss show ?thesis by simp
  qed
qed

lemma holder_unique:
  assumes "sorted (bounds fps)" "i < length fps" "j < length fps"
    and "start (fps ! i) \<le> x" "x < finish (fps ! i)"
    and "start (fps ! j) \<le> x" "x < finish (fps ! j)"
  shows "j = i"
proof (rule ccontr)
  assume "j \<noteq> i"
  then consider "i < j" | "j < i" by linarith
  then show False
  proof cases
    case 1
    from sorted_bounds_nth [OF assms(1) 1 assms(3)] assms show False by simp
  next
    case 2
    from sorted_bounds_nth [OF assms(1) 2 assms(2)] assms show False by simp
  qed
qed

lemma combine_sorted:
  assumes "combine_wav_files f ws g = Inr (c, fps)" "0 \<le> g"
  shows "sorted (0 # bounds fps @ [seconds c])"
proof -
  from assms(1) have "combine_loop f g (silent (g * 1000)) (last ws) ws empty_segment []
      (seconds empty_segment) = Inr (c, fps)"
    by (simp add: combine_wav_files_def seconds_def empty_segment_def split: if_splits)
  from loop_sorted [OF this assms(2)] show ?thesis
    by (simp add: seconds_def empty_segment_def)
qed

lemma combine_loop_eq:
  "combine_wav_files f ws g = Inr (c, fps) \<Longrightarrow>
   ws \<noteq> [] \<and> combine_loop f g (silent (g * 1000)) (last ws) ws empty_segment [] 0 = Inr (c, fps)"
  by (simp add: combine_wav_files_def split: if_splits)

lemma basename_simps:
  "basename ''out/a.wav'' = ''a.wav''" "basename ''out/b.wav'' = ''b.wav''"
  "basename ''out/c.wav'' = ''c.wav''"
  by (simp_all add: basename_def)

lemma count_not_last:
  assumes "Suc i < length ws" "ws ! i = last ws"
  shows "length (filter (\<lambda>w. w \<noteq> last ws) ws) < length ws - 1"
proof -
  from assms(1) have ne: "ws \<noteq> []" by auto
  then have ws: "ws = butlast ws @ [last ws]" by simp
  from assms(1) have i: "i < length (butlast ws)" by simp
  then have "butlast ws ! i = ws ! i" by (simp add: nth_butlast)
  with i assms(2) have "last ws \<in> set (butlast ws)"
    by (metis nth_mem)
  then have "length (filter (\<lambda>w. w \<noteq> last ws) (butlast ws)) < length (butlast ws)"
    by (intro length_filter_less) auto
  moreover have "filter (\<lambda>w. w \<noteq> last ws) ws = filter (\<lambda>w. w \<noteq> last ws) (butlast ws)"
    by (subst ws) simp
  ultimately show ?thesis by simp
qed

lemma count_distinct:
  assumes "ws \<noteq> []" "last ws \<notin> set (butlast ws)"
  shows "length (filter (\<lambda>w. w \<noteq> last ws) ws) = length ws - 1"
proof -
  from assms(1) have ws: "ws = butlast ws @ [last ws]" by simp
  have "filter (\<lambda>w. w \<noteq> last ws) ws = filter (\<lambda>w. w \<noteq> last ws) (butlast ws)"
    by (subst ws) simp
  also have "\<dots> = butlast ws"
    using assms(2) by (intro filter_True) auto
  finally show ?thesis by simp
qed

lemma combine_total:
  assumes "combine_wav_files f ws g = Inr (c, fps)" "0 \<le> g"
  shows "seconds c = sum_durations f ws
           + real_of_int g * real (length (filter (\<lambda>w. w \<noteq> last ws) ws))"
proof -
  from combine_loop_eq [OF assms(1)] loop_total
  have "seconds c = seconds empty_segment + sum_durations f ws
          + seconds (silent (g * 1000)) * real (length (filter (\<lambda>w. w \<noteq> last ws) ws))"
    by blast
  moreover have "seconds empty_segment = 0"
    by (simp add: seconds_def empty_segment_def)
  ultimately show ?thesis
    using assms(2) by (simp add: seconds_silent)
qed

lemma combine_duration_distinct:
  assumes "combine_wav_files f ws g = Inr (c, fps)" "0 \<le> g" "last ws \<notin> set (butlast ws)"
  shows "seconds c = sum_durations f ws + real_of_int g * real (length ws - 1)"
  using combine_total [OF assms(1,2)] combine_loop_eq [OF assms(1)] assms(3)
  by (simp add: count_distinct)

text \<open>
  Claim C10, as amended. The test of line 69 compares the path with the last element of
  the list. So when the path at index \<open>i\<close>, before the last index, equals the last path,
  no silence follows file \<open>i\<close>: the next entry starts where entry \<open>i\<close> ends. When
  the gap is positive, the merged audio is then shorter than the sum of the durations plus
  \<open>gap_seconds * (n - 1)\<close>.
\<close>

theorem repeated_last_path_skips_gap:
  assumes "combine_wav_files from_wav files gap_seconds = Inr (merged, positions)"
    and "Suc i < length files" and "files ! i = last files"
  shows "start (positions ! Suc i) = finish (positions ! i) \<and>
         (0 < gap_seconds \<longrightarrow>
            seconds merged
              < sum_durations from_wav files
                  + real_of_int gap_seconds * real (length files - 1))"
proof
  from combine_loop_eq [OF assms(1)]
  have run: "combine_loop from_wav gap_seconds (silent (gap_seconds * 1000)) (last files)
         files empty_segment [] 0 = Inr (merged, positions)" by simp
  from loop_next_start [OF run assms(2)] assms(3)
  show "start (positions ! Suc i) = finish (positions ! i)" by simp
  show "0 < gap_seconds \<longrightarrow> seconds merged
      < sum_durations from_wav files + real_of_int gap_seconds * real (length files - 1)"
  proof
    assume pos: "0 < gap_seconds"
    then have "0 \<le> gap_seconds" by simp
    from combine_total [OF assms(1) this]
    have "seconds merged = sum_durations from_wav files + real_of_int gap_seconds *
        real (length (filter (\<lambda>w. w \<noteq> last files) files))" .
    moreover from count_not_last [OF assms(2,3)] pos
    have "real_of_int gap_seconds * real (length (filter (\<lambda>w. w \<noteq> last files) files))
        < real_of_int gap_seconds * real (length files - 1)"
      by simp
    ultimately show "seconds merged
      < sum_durations from_wav files + real_of_int gap_seconds * real (length files - 1)"
      by simp
  qed
qed

lemma gap_not_held:
  assumes srt: "sorted (bounds fps)" and i: "Suc i < length fps" and j: "j < length fps"
    and lo: "finish (fps ! i) \<le> x" and hi: "x < start (fps ! Suc i)"
  shows "\<not> (start (fps ! j) \<le> x \<and> x < finish (fps ! j))"
proof (cases "j \<le> i")
  case True
  have "finish (fps ! j) \<le> finish (fps ! i)"
  proof (cases "j = i")
    case True
    then show ?thesis by simp
  next
    case False
    with True have ji: "j < i" by simp
    from i have i': "i < length fps" by simp
    from sorted_bounds_nth [OF srt ji i'] sorted_bounds_entry [OF srt, of "fps ! i"] i'
    show ?thesis by simp
  qed
  with lo show ?thesis by simp
next
  case False
  have "start (fps ! Suc i) \<le> start (fps ! j)"
  proof (cases "j = Suc i")
    case True
    then show ?thesis by simp
  next
    case ne: False
    with False have sj: "Suc i < j" by simp
    from sorted_bounds_nth [OF srt sj j] sorted_bounds_entry [OF srt, of "fps ! Suc i"] i
    show ?thesis by simp
  qed
  with hi show ?thesis by simp
qed

text \<open>
  Claim C2. For the positions that \<open>combine_wav_files\<close> returns (for a gap that is not
  negative) and every position: when entry \<open>i\<close> holds the position
  (\<open>start \<le> position < end\<close>), \<open>get_current_file\<close> returns the name of entry \<open>i\<close>,
  which is the base name of the \<open>i\<close>-th file, and no other entry holds the position;
  for a position below 0, at or after the total duration, or between the end of an entry
  and the start of the next one, it returns the text for an unknown file.
  \<open>get_current_file\<close> is total: it returns for every list and every position.
\<close>

theorem get_current_file_resolves:
  assumes "combine_wav_files from_wav files gap_seconds = Inr (merged, positions)"
    and "0 \<le> gap_seconds"
  shows "(\<forall>i<length positions.
            start (positions ! i) \<le> position \<and> position < finish (positions ! i) \<longrightarrow>
            get_current_file positions position = fname (positions ! i) \<and>
            fname (positions ! i) = basename (files ! i) \<and>
            (\<forall>j<length positions.
               start (positions ! j) \<le> position \<and> position < finish (positions ! j) \<longrightarrow>
               j = i)) \<and>
         (position < 0 \<or> seconds merged \<le> position \<or>
          (\<exists>i. Suc i < length positions \<and> finish (positions ! i) \<le> position \<and>
               position < start (positions ! Suc i)) \<longrightarrow>
          get_current_file positions position = unknown_file)"
proof -
  from combine_sorted [OF assms]
  have all: "sorted (0 # bounds positions @ [seconds merged])" .
  then have srt: "sorted (bounds positions)" by (simp add: sorted_append)
  from combine_loop_eq [OF assms(1)]
  have run: "combine_loop from_wav gap_seconds (silent (gap_seconds * 1000)) (last files)
         files empty_segment [] 0 = Inr (merged, positions)" by simp
  have len: "length positions = length files"
    by (rule loop_length [OF run])
  have hit: "\<forall>i<length positions.
            start (positions ! i) \<le> position \<and> position < finish (positions ! i) \<longrightarrow>
            get_current_file positions position = fname (positions ! i) \<and>
            fname (positions ! i) = basename (files ! i) \<and>
            (\<forall>j<length positions.
               start (positions ! j) \<le> position \<and> position < finish (positions ! j) \<longrightarrow>
               j = i)"
  proof (intro allI impI, elim conjE)
    fix i
    assume i: "i < length positions"
      and lo: "start (positions ! i) \<le> position"
      and hi: "position < finish (positions ! i)"
    have "get_current_file positions position = fname (positions ! i)"
      by (rule get_current_file_hit [OF srt i lo hi])
    moreover have "fname (positions ! i) = basename (files ! i)"
      using loop_fname [OF run] i len by simp
    moreover have "\<forall>j<length positions.
        start (positions ! j) \<le> position \<and> position < finish (positions ! j) \<longrightarrow> j = i"
      using holder_unique [OF srt i _ lo hi] by blast
    ultimately show "get_current_file positions position = fname (positions ! i) \<and>
            fname (positions ! i) = basename (files ! i) \<and>
            (\<forall>j<length positions.
               start (positions ! j) \<le> position \<and> position < finish (positions ! j) \<longrightarrow>
               j = i)" by simp
  qed
  have miss: "position < 0 \<or> seconds merged \<le> position \<or>
          (\<exists>i. Suc i < length positions \<and> finish (positions ! i) \<le> position \<and>
               position < start (positions ! Suc i)) \<longrightarrow>
          get_current_file positions position = unknown_file"
  proof
    assume out: "position < 0 \<or> seconds merged \<le> position \<or>
          (\<exists>i. Suc i < length positions \<and> finish (positions ! i) \<le> position \<and>
               position < start (positions ! Suc i))"
    have "\<forall>e\<in>set positions. \<not> (start e \<le> position \<and> position < finish e)"
    proof
      fix e
      assume e: "e \<in> set positions"
      from sorted_bounds_between [OF all e]
      have be: "0 \<le> start e" "finish e \<le> seconds merged" by simp_all
      from e obtain j where j: "j < length positions" "e = positions ! j"
        by (auto simp: in_set_conv_nth)
      from out consider "position < 0" | "seconds merged \<le> position"
        | i where "Suc i < length positions" "finish (positions ! i) \<le> position"
            "position < start (positions ! Suc i)"
        by blast
      then show "\<not> (start e \<le> position \<and> position < finish e)"
      proof cases
        case 1
        with be show ?thesis by simp
      next
        case 2
        with be show ?thesis by simp
      next
        case 3
        from gap_not_held [OF srt 3(1) j(1) 3(2,3)] j(2) show ?thesis by simp
      qed
    qed
    then show "get_current_file positions position = unknown_file"
      by (rule get_current_file_miss)
  qed
  from hit miss show ?thesis by (rule conjI)
qed

text \<open>
  Claim C3. The positions that \<open>combine_wav_files\<close> returns (for a gap that is not
  negative) have one entry for each file, with starts in non-decreasing order; an entry
  ends before any later one starts; when no file decodes to a segment of length zero, every
  entry ends after it starts; the silence inserted after file \<open>i\<close> is the interval
  from the end of entry \<open>i\<close> to the start of entry \<open>i + 1\<close>, and no entry holds a
  position of it.
\<close>

theorem combine_positions_ordered:
  assumes "combine_wav_files from_wav files gap_seconds = Inr (merged, positions)"
    and "0 \<le> gap_seconds"
  shows "length positions = length files \<and>
         sorted (map start positions) \<and>
         (\<forall>i j. i < j \<and> j < length positions \<longrightarrow>
                finish (positions ! i) \<le> start (positions ! j)) \<and>
         ((\<forall>w\<in>set files. from_wav w \<noteq> Some (AudioSegment 0)) \<longrightarrow>
          (\<forall>e\<in>set positions. start e < finish e)) \<and>
         (\<forall>i. Suc i < length positions \<longrightarrow>
              start (positions ! Suc i) =
                finish (positions ! i) +
                (if files ! i \<noteq> last files then real_of_int gap_seconds else 0)) \<and>
         (\<forall>i j x. Suc i < length positions \<and> j < length positions \<and>
                finish (positions ! i) \<le> x \<and> x < start (positions ! Suc i) \<longrightarrow>
                \<not> (start (positions ! j) \<le> x \<and> x < finish (positions ! j)))"
proof -
  from combine_sorted [OF assms]
  have "sorted (0 # bounds positions @ [seconds merged])" .
  then have srt: "sorted (bounds positions)" by (simp add: sorted_append)
  from combine_loop_eq [OF assms(1)]
  have run: "combine_loop from_wav gap_seconds (silent (gap_seconds * 1000)) (last files)
         files empty_segment [] 0 = Inr (merged, positions)" by simp
  then have run': "combine_loop from_wav gap_seconds (silent (gap_seconds * 1000))
         (last files) files empty_segment [] (seconds empty_segment)
           = Inr (merged, positions)"
    by (simp add: seconds_def empty_segment_def)
  have len: "length positions = length files"
    by (rule loop_length [OF run])
  have c2: "sorted (map start positions)"
    by (rule sorted_bounds_starts [OF srt])
  have c3: "\<forall>i j. i < j \<and> j < length positions \<longrightarrow>
                finish (positions ! i) \<le> start (positions ! j)"
    using sorted_bounds_nth [OF srt] by blast
  have c4: "(\<forall>w\<in>set files. from_wav w \<noteq> Some (AudioSegment 0)) \<longrightarrow>
          (\<forall>e\<in>set positions. start e < finish e)"
    using loop_positive [OF run' assms(2)] by blast
  have c5: "\<forall>i. Suc i < length positions \<longrightarrow>
              start (positions ! Suc i) =
                finish (positions ! i) +
                (if files ! i \<noteq> last files then real_of_int gap_seconds else 0)"
    using loop_next_start [OF run] len by simp
  have c6: "\<forall>i j x. Suc i < length positions \<and> j < length positions \<and>
                finish (positions ! i) \<le> x \<and> x < start (positions ! Suc i) \<longrightarrow>
                \<not> (start (positions ! j) \<le> x \<and> x < finish (positions ! j))"
    using gap_not_held [OF srt] by blast
  from len c2 c3 c4 c5 c6 show ?thesis by blast
qed

lemma sample_run:
  "combine_wav_files sample_wav sample_files 3 = Inr (AudioSegment 12500, sample_positions)"
  by (simp add: combine_wav_files_def sample_wav_def basename_simps seg_add_def seconds_def
      silent_def empty_segment_def Let_def sample_files_def sample_positions_def)

lemma repeated_run:
  "combine_wav_files sample_wav repeated_files 3 = Inr (AudioSegment 10500, repeated_positions)"
  by (simp add: combine_wav_files_def sample_wav_def basename_simps seg_add_def seconds_def
      silent_def empty_segment_def Let_def repeated_files_def repeated_positions_def)

text \<open>
  Claim C1 at the list \<open>a, b, a\<close> (2 s, 3.5 s and 2 s, gap 3 s): the merged audio lasts
  10.5 s, where the sum of the durations plus \<open>gap_seconds * (n - 1)\<close> is 13.5 s.
  Against the comment of line 68, no silence follows the first file, whose path equals
  the last one.
\<close>

theorem combine_wav_files_repeated_path_total:
  "combine_wav_files sample_wav repeated_files 3 = Inr (AudioSegment 10500, repeated_positions) \<and>
   seconds (AudioSegment 10500) = 21 / 2 \<and>
   sum_durations sample_wav repeated_files + 3 * real (length repeated_files - 1) = 27 / 2"
  by (simp add: repeated_run seconds_def)
     (simp add: sum_durations_def file_seconds_def sample_wav_def seconds_def repeated_files_def)

text \<open>
  Claim C2 on three files of 2 s, 3.5 s and 1 s with a gap of 3 s: 1.0 is in the first
  file, 6.5 in the second, 3.0 in a gap.
\<close>

theorem get_current_file_resolves_witness:
  "combine_wav_files sample_wav sample_files 3 = Inr (AudioSegment 12500, sample_positions) \<and>
   get_current_file sample_positions 1 = ''a.wav'' \<and>
   get_current_file sample_positions 3 = unknown_file \<and>
   get_current_file sample_positions (13 / 2) = ''b.wav'' \<and>
   get_current_file sample_positions (- 1) = unknown_file \<and>
   get_current_file sample_positions (25 / 2) = unknown_file"
proof -
  have g: "(0::int) \<le> 3" by simp
  note r = get_current_file_resolves [OF sample_run g]
  have "get_current_file sample_positions 1 = fname (sample_positions ! 0)"
    using r [of 1] by (simp add: sample_positions_def)
  then have a: "get_current_file sample_positions 1 = ''a.wav''"
    by (simp add: sample_positions_def)
  have "get_current_file sample_positions (13 / 2) = fname (sample_positions ! 1)"
    using r [of "13 / 2"] by (simp add: sample_positions_def)
  then have b: "get_current_file sample_positions (13 / 2) = ''b.wav''"
    by (simp add: sample_positions_def)
  have "\<exists>i. Suc i < length sample_positions \<and> finish (sample_positions ! i) \<le> 3 \<and>
            3 < start (sample_positions ! Suc i)"
    by (rule exI [of _ 0]) (simp add: sample_positions_def)
  with r [of 3] have c: "get_current_file sample_positions 3 = unknown_file" by blast
  from r [of "- 1"] have d: "get_current_file sample_positions (- 1) = unknown_file" by simp
  from r [of "25 / 2"] have e: "get_current_file sample_positions (25 / 2) = unknown_file"
    by (simp add: seconds_def)
  from sample_run a b c d e show ?thesis by simp
qed

text \<open>Claim C3 on the same three files.\<close>

theorem combine_positions_ordered_witness:
  "combine_wav_files sample_wav sample_files 3 = Inr (AudioSegment 12500, sample_positions) \<and>
   length sample_positions = length sample_files \<and>
   sorted (map start sample_positions) \<and>
   finish (sample_positions ! 0) \<le> start (sample_positions ! 2) \<and>
   start (sample_positions ! 1) < finish (sample_positions ! 1) \<and>
   start (sample_positions ! Suc 0) = finish (sample_positions ! 0) + 3"
proof -
  have g: "(0::int) \<le> 3" by simp
  note r = combine_positions_ordered [OF sample_run g]
  have nz: "\<forall>w\<in>set sample_files. sample_wav w \<noteq> Some (AudioSegment 0)"
    by (simp add: sample_files_def sample_wav_def)
  from r have "length sample_positions = length sample_files"
    and "sorted (map start sample_positions)" by simp_all
  moreover from r have "0 < (2::nat) \<and> 2 < length sample_positions \<longrightarrow>
      finish (sample_positions ! 0) \<le> start (sample_positions ! 2)" by blast
  then have "finish (sample_positions ! 0) \<le> start (sample_positions ! 2)"
    by (simp add: sample_positions_def)
  moreover from r nz have "\<forall>e\<in>set sample_positions. start e < finish e" by blast
  then have "start (sample_positions ! 1) < finish (sample_positions ! 1)"
    by (simp add: sample_positions_def)
  moreover from r have "Suc 0 < length sample_positions \<longrightarrow>
      start (sample_positions ! Suc 0) = finish (sample_positions ! 0) +
        (if sample_files ! 0 \<noteq> last sample_files then real_of_int 3 else 0)" by blast
  then have "start (sample_positions ! Suc 0) = finish (sample_positions ! 0) + 3"
    by (simp add: sample_positions_def sample_files_def)
  ultimately show ?thesis using sample_run by simp
qed

text \<open>Claim C10, as amended, on the list \<open>a, b, a\<close> with a gap of 3 s.\<close>

theorem repeated_last_path_skips_gap_witness:
  "combine_wav_files sample_wav repeated_files 3 = Inr (AudioSegment 10500, repeated_positions) \<and>
   repeated_files ! 0 = last repeated_files \<and>
   start (repeated_positions ! Suc 0) = finish (repeated_positions ! 0) \<and>
   seconds (AudioSegment 10500)
     < sum_durations sample_wav repeated_files + 3 * real (length repeated_files - 1)"
proof -
  have i: "Suc 0 < length repeated_files" by (simp add: repeated_files_def)
  have l: "repeated_files ! 0 = last repeated_files" by (simp add: repeated_files_def)
  from repeated_last_path_skips_gap [OF repeated_run i l] repeated_run l
  show ?thesis by simp
qed

text \<open>
  Claim C10 as stated fails for a gap of zero: the list \<open>a, a\<close> merges to 4 s, which is
  the sum of the durations plus \<open>0 * (n - 1)\<close>, not less.
\<close>

theorem zero_gap_repeated_path_not_smaller:
  "combine_wav_files sample_wav [''out/a.wav'', ''out/a.wav''] 0 =
     Inr (AudioSegment 4000,
          [\<lparr>fname = ''a.wav'', start = 0, finish = 2\<rparr>,
           \<lparr>fname = ''a.wav'', start = 2, finish = 4\<rparr>]) \<and>
   \<not> seconds (AudioSegment 4000)
       < sum_durations sample_wav [''out/a.wav'', ''out/a.wav'']
           + real_of_int 0 * real (length [''out/a.wav'', ''out/a.wav''] - 1)"
  by (simp add: combine_wav_files_def sample_wav_def basename_simps seg_add_def seconds_def
      silent_def empty_segment_def Let_def sum_durations_def file_seconds_def)

section \<open>Properties of the player\<close>

lemma pause_playing: "\<not> playing (pause h s)"
  by (simp add: pause_def Let_def)

lemma pause_fields:
  "current_position (pause h s) = current_position s"
  "slider_value (pause h s) = slider_value s"
  "file_positions (pause h s) = file_positions s"
  "combined_audio (pause h s) = combined_audio s"
  "output_path (pause h s) = output_path s"
  "file_label (pause h s) = file_label s"
  "current_file_name (pause h s) = current_file_name s"
  "play_obj (pause h s) = play_obj s"
  by (simp_all add: pause_def Let_def)

lemma pause_effects:
  "effects (pause h s) =
     effects s @ (if playing s \<and> h \<and> play_obj s \<noteq> None then [Sa_stop] else [])"
  by (simp add: pause_def Let_def)

lemma play_fields:
  "current_position (play h now s) = current_position s"
  "slider_value (play h now s) = slider_value s"
  "file_positions (play h now s) = file_positions s"
  "combined_audio (play h now s) = combined_audio s"
  "output_path (play h now s) = output_path s"
  "current_file_name (play h now s) = current_file_name s"
  by (simp_all add: play_def Let_def split: option.split)

lemma play_playing: "playing (play h now s)"
  by (simp add: play_def Let_def split: option.split)

lemma play_anchor:
  "\<not> playing s \<Longrightarrow> start_position (play h now s) = slider_value s"
  "\<not> playing s \<Longrightarrow> start_time (play h now s) = now"
  by (simp_all add: play_def Let_def split: option.split)

lemma play_degraded:
  "\<not> playing s \<Longrightarrow> file_label (play False now s) = Limited_text"
  "\<not> playing s \<Longrightarrow> effects (play False now s) = effects s @ [Display_audio (output_path s)]"
  "play_obj (play False now s) = play_obj s"
  by (simp_all add: play_def Let_def)

lemma opc_fields:
  "slider_value (on_position_change h now new s) = slider_value s"
  "file_positions (on_position_change h now new s) = file_positions s"
  "combined_audio (on_position_change h now new s) = combined_audio s"
  "output_path (on_position_change h now new s) = output_path s"
  "current_position (on_position_change h now new s) = new"
  "playing (on_position_change h now new s) = playing s"
  by (simp_all add: on_position_change_def Let_def play_fields pause_fields play_playing)

lemma opc_restart:
  "playing s \<Longrightarrow> start_position (on_position_change h now new s) = slider_value s"
  "playing s \<Longrightarrow> start_time (on_position_change h now new s) = now"
  by (simp_all add: on_position_change_def Let_def play_anchor pause_playing pause_fields)

lemma opc_effects_degraded:
  "effects (on_position_change False now new s) =
     effects s @ (if playing s then [Display_audio (output_path s)] else [])"
  by (simp add: on_position_change_def Let_def play_degraded pause_playing pause_effects
      pause_fields)

lemma ssv_slider:
  "slider_value (set_slider_value h now v s) = min (max v 0) (seconds (combined_audio s))"
  by (simp add: set_slider_value_def Let_def opc_fields)

lemma ssv_fields:
  "file_positions (set_slider_value h now v s) = file_positions s"
  "combined_audio (set_slider_value h now v s) = combined_audio s"
  "output_path (set_slider_value h now v s) = output_path s"
  "playing (set_slider_value h now v s) = playing s"
  by (simp_all add: set_slider_value_def Let_def opc_fields)

lemma ssv_position:
  "current_position (set_slider_value h now v s) =
     (if min (max v 0) (seconds (combined_audio s)) = slider_value s then current_position s
      else min (max v 0) (seconds (combined_audio s)))"
  by (simp add: set_slider_value_def Let_def opc_fields)

lemma ssv_effects_degraded:
  "effects (set_slider_value False now v s) =
     effects s @ (if min (max v 0) (seconds (combined_audio s)) \<noteq> slider_value s \<and> playing s
                  then [Display_audio (output_path s)] else [])"
  by (simp add: set_slider_value_def Let_def opc_effects_degraded)

lemma ssv_effects_idle:
  "\<not> playing s \<Longrightarrow> effects (set_slider_value h now v s) = effects s"
  by (simp add: set_slider_value_def Let_def on_position_change_def)

lemma ssv_restart:
  "playing s \<Longrightarrow> min (max v 0) (seconds (combined_audio s)) \<noteq> slider_value s \<Longrightarrow>
   start_position (set_slider_value h now v s) = min (max v 0) (seconds (combined_audio s))"
  "playing s \<Longrightarrow> min (max v 0) (seconds (combined_audio s)) \<noteq> slider_value s \<Longrightarrow>
   start_time (set_slider_value h now v s) = now"
  by (simp_all add: set_slider_value_def Let_def opc_restart)

text \<open>
  Claim C7. In every state, \<open>pause\<close> after \<open>pause\<close> leaves the player in the state that
  one \<open>pause\<close> leaves it in (every attribute and widget, and what was asked of the playback
  services); when the player is not playing, \<open>pause\<close> changes nothing.
\<close>

theorem pause_idempotent:
  "pause h (pause h s) = pause h s \<and> (\<not> playing s \<longrightarrow> pause h s = s)"
  by (simp add: pause_def Let_def)

text \<open>The state after \<open>stop\<close>, attribute by attribute.\<close>

lemma stop_state:
  "stop h now s =
     (pause_then_reset h s)\<lparr>slider_value := 0,
        current_file_name :=
          (if slider_value s = 0 then current_file_name s
           else get_current_file (file_positions s) 0),
        file_label := Stopped_text\<rparr>"
  by (rule player.equality)
     (auto simp add: stop_def pause_then_reset_def Let_def set_slider_value_def
        on_position_change_def pause_def seconds_nonneg)

text \<open>
  Claim C8. In every state, \<open>stop\<close> and \<open>pause\<close> followed by setting the current
  position to 0 agree on whether the player plays, on the current position and on what was
  asked of the playback services; after \<open>stop\<close> the player does not play and the
  position, of the player and of the slider, is 0. The two states differ in the display
  only: \<open>stop\<close> also puts the slider at 0, which looks up the file name at 0 when the
  slider moves, and writes its own text to the label.
\<close>

theorem stop_is_pause_then_reset:
  "observe (stop h now s) = observe (pause_then_reset h s) \<and>
   \<not> playing (stop h now s) \<and> current_position (stop h now s) = 0 \<and>
   slider_value (stop h now s) = 0 \<and>
   stop h now s =
     (pause_then_reset h s)\<lparr>slider_value := 0,
        current_file_name :=
          (if slider_value s = 0 then current_file_name s
           else get_current_file (file_positions s) 0),
        file_label := Stopped_text\<rparr>"
proof -
  have "observe (stop h now s) = observe (pause_then_reset h s)"
    by (simp add: stop_state observe_def)
  moreover have "\<not> playing (stop h now s)"
    by (simp add: stop_state pause_then_reset_def pause_playing)
  moreover have "current_position (stop h now s) = 0" and "slider_value (stop h now s) = 0"
    by (simp_all add: stop_state pause_then_reset_def)
  ultimately show ?thesis
    using stop_state [of h now s] by simp
qed

text \<open>
  Claim C9. At a turn of the progress loop, while the player plays and the play object
  still reports playing, the current position becomes the position at which \<open>play\<close>
  started plus the time elapsed since, or the total duration when that is reached; the
  slider shows it; the file name is looked up in the positions at that value and written
  to the label. The clock is assumed not to have gone back since \<open>play\<close>, and the start
  position, which \<open>play\<close> read from the slider, not to be negative.
\<close>

theorem update_progress_step_publishes:
  assumes "playing s" and "play_obj s \<noteq> None"
    and "start_time s \<le> now" and "0 \<le> start_position s"
  shows "fst (update_progress_step True now True s) \<and>
         current_position (snd (update_progress_step True now True s)) =
           min (start_position s + (now - start_time s)) (seconds (combined_audio s)) \<and>
         slider_value (snd (update_progress_step True now True s)) =
           current_position (snd (update_progress_step True now True s)) \<and>
         current_file_name (snd (update_progress_step True now True s)) =
           get_current_file (file_positions s)
             (current_position (snd (update_progress_step True now True s))) \<and>
         file_label (snd (update_progress_step True now True s)) =
           Playing_text (current_file_name (snd (update_progress_step True now True s)))"
proof -
  define cp where "cp = min (start_position s + (now - start_time s)) (seconds (combined_audio s))"
  define s2 where "s2 =
     (if seconds (combined_audio s) \<le> start_position s + (now - start_time s)
      then s\<lparr>current_position := seconds (combined_audio s), playing := False\<rparr>
      else s\<lparr>current_position := start_position s + (now - start_time s)\<rparr>)"
  define s3 where "s3 = set_slider_value True now cp s2"
  have cp2: "current_position s2 = cp" and ca2: "combined_audio s2 = combined_audio s"
    and fp2: "file_positions s2 = file_positions s"
    by (simp_all add: s2_def cp_def)
  have range: "0 \<le> cp" "cp \<le> seconds (combined_audio s)"
    using assms(3,4) by (simp_all add: cp_def seconds_nonneg)
  then have clamp: "min (max cp 0) (seconds (combined_audio s2)) = cp"
    by (simp add: ca2)
  have step: "update_progress_step True now True s =
      (True, s3\<lparr>current_file_name := get_current_file (file_positions s3) (current_position s3),
               file_label := Playing_text (get_current_file (file_positions s3) (current_position s3))\<rparr>)"
    using assms(1,2)
    by (simp add: update_progress_step_def Let_def s3_def s2_def cp_def min_def)
  have "current_position s3 = cp"
    by (simp add: s3_def ssv_position clamp cp2)
  moreover have "slider_value s3 = cp"
    by (simp add: s3_def ssv_slider clamp)
  moreover have "file_positions s3 = file_positions s"
    by (simp add: s3_def ssv_fields fp2)
  ultimately show ?thesis
    unfolding step by (simp add: cp_def)
qed

text \<open>Claim C9, six seconds after a start at 0: the second file is playing.\<close>

theorem update_progress_step_publishes_witness:
  "playing ticking_player \<and> play_obj ticking_player \<noteq> None \<and>
   start_time ticking_player \<le> 106 \<and> 0 \<le> start_position ticking_player \<and>
   current_position (snd (update_progress_step True 106 True ticking_player)) = 6 \<and>
   current_file_name (snd (update_progress_step True 106 True ticking_player)) = ''b.wav'' \<and>
   file_label (snd (update_progress_step True 106 True ticking_player)) = Playing_text ''b.wav''"
proof -
  have a: "playing ticking_player" and b: "play_obj ticking_player \<noteq> None"
    and c: "start_time ticking_player \<le> 106" and d: "0 \<le> start_position ticking_player"
    by (simp_all add: ticking_player_def sample_player_def)
  have e: "min (start_position ticking_player + (106 - start_time ticking_player))
      (seconds (combined_audio ticking_player)) = 6"
    by (simp add: ticking_player_def sample_player_def seconds_def)
  have f: "get_current_file (file_positions ticking_player) 6 = ''b.wav''"
    by (simp add: ticking_player_def sample_player_def sample_positions_def)
  from update_progress_step_publishes [OF a b c d] a b c d e f show ?thesis by simp
qed

text \<open>Claim C7 on a player that is stopped and on one that is playing.\<close>

theorem pause_idempotent_witness:
  "\<not> playing sample_player \<and> pause True sample_player = sample_player \<and>
   pause True (pause True ticking_player) = pause True ticking_player \<and>
   playing ticking_player \<and> \<not> playing (pause True ticking_player)"
proof -
  have a: "\<not> playing sample_player" by (simp add: sample_player_def)
  have b: "playing ticking_player" by (simp add: ticking_player_def)
  from pause_idempotent [of True sample_player] pause_idempotent [of True ticking_player] a b
  show ?thesis by (simp add: pause_playing)
qed

text \<open>
  Claim C5, as amended. Without simpleaudio, \<open>play\<close> on a player that is not playing
  succeeds whatever the slider shows: the player is playing, the label reports the
  limitation, and the whole merged file is handed to the notebook's audio display, which
  plays it from its start. A change of the slider cannot move the audio to the requested
  offset, but it has effects: the current position becomes the slider's new value and, when
  the player is playing, the whole file is handed to the audio display once more.
\<close>

theorem degraded_play_and_seek:
  "(\<not> playing s \<longrightarrow>
      playing (play False now s) \<and>
      file_label (play False now s) = Limited_text \<and>
      effects (play False now s) = effects s @ [Display_audio (output_path s)]) \<and>
   current_position (set_slider_value False now v s) =
     (if min (max v 0) (seconds (combined_audio s)) = slider_value s then current_position s
      else min (max v 0) (seconds (combined_audio s))) \<and>
   effects (set_slider_value False now v s) =
     effects s @ (if min (max v 0) (seconds (combined_audio s)) \<noteq> slider_value s \<and> playing s
                  then [Display_audio (output_path s)] else []) \<and>
   playing (set_slider_value False now v s) = playing s"
  by (simp add: play_playing play_degraded ssv_position ssv_effects_degraded ssv_fields)

text \<open>Claim C5, as amended, for \<open>play\<close> with the slider at 5 s.\<close>

theorem degraded_play_and_seek_witness:
  "\<not> playing (sample_player\<lparr>slider_value := 5\<rparr>) \<and>
   playing (play False 0 (sample_player\<lparr>slider_value := 5\<rparr>)) \<and>
   file_label (play False 0 (sample_player\<lparr>slider_value := 5\<rparr>)) = Limited_text \<and>
   effects (play False 0 (sample_player\<lparr>slider_value := 5\<rparr>)) = [Display_audio ''tmp.wav'']"
proof -
  have a: "\<not> playing (sample_player\<lparr>slider_value := 5\<rparr>)"
    by (simp add: sample_player_def)
  from degraded_play_and_seek [of "sample_player\<lparr>slider_value := 5\<rparr>" 0] a
  show ?thesis by (simp add: sample_player_def)
qed

text \<open>
  Claim C5 as stated fails: without simpleaudio, moving the slider to 5 s while playing
  changes the playback position that the player records from 0 to 5 and starts the merged
  file a second time.
\<close>

theorem degraded_seek_moves_position:
  "current_position (play False 0 sample_player) = 0 \<and>
   effects (play False 0 sample_player) = [Display_audio ''tmp.wav''] \<and>
   current_position (set_slider_value False 1 5 (play False 0 sample_player)) = 5 \<and>
   effects (set_slider_value False 1 5 (play False 0 sample_player)) =
     [Display_audio ''tmp.wav'', Display_audio ''tmp.wav'']"
  by (simp add: ssv_position ssv_effects_degraded play_fields play_playing play_degraded
      sample_player_def seconds_def)

text \<open>What \<open>play\<close> hands to simpleaudio.\<close>

lemma create_frames_only:
  "frame_rate t = frame_rate s \<Longrightarrow> n_frames t = n_frames s \<Longrightarrow>
   create_wav_obj_from_position t p = create_wav_obj_from_position s p"
  by (simp add: create_wav_obj_from_position_def Let_def)

lemma create_in_range:
  "0 \<le> int_of_float (p * real (frame_rate s)) \<Longrightarrow>
   int_of_float (p * real (frame_rate s)) \<le> int (n_frames s) \<Longrightarrow>
   create_wav_obj_from_position s p =
     Some (WaveObject (nat (int_of_float (p * real (frame_rate s))))
             (n_frames s - nat (int_of_float (p * real (frame_rate s)))))"
  by (simp add: create_wav_obj_from_position_def Let_def)

lemma play_starts:
  assumes "\<not> playing s" and "create_wav_obj_from_position s (slider_value s) = Some w"
  shows "play_obj (play True now s) = Some w"
    and "effects (play True now s) =
           effects s @ [Sa_play w] @
           (if progress_thread s = None \<or> progress_thread s = Some False then [Thread_start]
            else [])"
proof -
  let ?s1 = "s\<lparr>playing := True, play_button := Pause_face,
                start_position := slider_value s, start_time := now\<rparr>"
  have "create_wav_obj_from_position ?s1 (start_position ?s1) = Some w"
    using assms(2) by (simp add: create_frames_only [of ?s1 s])
  then have p: "play True now s =
      (let s2 = ?s1\<lparr>play_obj := Some w, effects := effects ?s1 @ [Sa_play w]\<rparr>
       in if progress_thread s2 = None \<or> progress_thread s2 = Some False
          then s2\<lparr>progress_thread := Some True, effects := effects s2 @ [Thread_start]\<rparr>
          else s2)"
    using assms(1) by (simp add: play_def Let_def)
  show "play_obj (play True now s) = Some w"
    unfolding p by (simp add: Let_def)
  show "effects (play True now s) =
           effects s @ [Sa_play w] @
           (if progress_thread s = None \<or> progress_thread s = Some False then [Thread_start]
            else [])"
    unfolding p by (simp add: Let_def)
qed

lemma play_fails:
  assumes "\<not> playing s" and "create_wav_obj_from_position s (slider_value s) = None"
  shows "play_obj (play True now s) = play_obj s"
    and "effects (play True now s) = effects s @ [Print_error]"
proof -
  let ?s1 = "s\<lparr>playing := True, play_button := Pause_face,
                start_position := slider_value s, start_time := now\<rparr>"
  have "create_wav_obj_from_position ?s1 (start_position ?s1) = None"
    using assms(2) by (simp add: create_frames_only [of ?s1 s])
  then have p: "play True now s = ?s1\<lparr>effects := effects ?s1 @ [Print_error]\<rparr>"
    using assms(1) by (simp add: play_def Let_def)
  show "play_obj (play True now s) = play_obj s" unfolding p by simp
  show "effects (play True now s) = effects s @ [Print_error]" unfolding p by simp
qed

lemma pause_thread: "progress_thread (pause h s) = progress_thread s"
  "frame_rate (pause h s) = frame_rate s" "n_frames (pause h s) = n_frames s"
  by (simp_all add: pause_def Let_def)

text \<open>The state that \<open>play\<close> receives when the slider moves during playback.\<close>

lemma seek_restart_state:
  assumes "playing s" and "v1 \<noteq> slider_value s"
    and "v1 = min (max v 0) (seconds (combined_audio s))"
  shows "set_slider_value True now v s =
           play True now ((pause True (s\<lparr>slider_value := v1\<rparr>))\<lparr>current_position := v1\<rparr>)"
  using assms by (simp add: set_slider_value_def on_position_change_def Let_def)

lemma seek_restarts:
  assumes "playing s" and "min (max v 0) (seconds (combined_audio s)) \<noteq> slider_value s"
    and "create_wav_obj_from_position s (min (max v 0) (seconds (combined_audio s))) = Some w"
  shows "play_obj (set_slider_value True now v s) = Some w"
    and "effects (set_slider_value True now v s) =
           effects s @ (if play_obj s \<noteq> None then [Sa_stop] else []) @ [Sa_play w] @
           (if progress_thread s = None \<or> progress_thread s = Some False then [Thread_start]
            else [])"
proof -
  define v1 where "v1 = min (max v 0) (seconds (combined_audio s))"
  define t where "t = (pause True (s\<lparr>slider_value := v1\<rparr>))\<lparr>current_position := v1\<rparr>"
  have eq: "set_slider_value True now v s = play True now t"
    unfolding t_def using assms(1,2) by (intro seek_restart_state) (simp_all add: v1_def)
  have np: "\<not> playing t" by (simp add: t_def pause_playing)
  have sv: "slider_value t = v1" by (simp add: t_def pause_fields)
  have "create_wav_obj_from_position t v1 = create_wav_obj_from_position s v1"
    by (rule create_frames_only) (simp_all add: t_def pause_thread)
  with assms(3) have cr: "create_wav_obj_from_position t (slider_value t) = Some w"
    by (simp add: sv v1_def)
  have ef: "effects t = effects s @ (if play_obj s \<noteq> None then [Sa_stop] else [])"
    using assms(1) by (simp add: t_def pause_effects)
  have th: "progress_thread t = progress_thread s"
    by (simp add: t_def pause_thread)
  from play_starts [OF np cr, of now] show "play_obj (set_slider_value True now v s) = Some w"
    by (simp add: eq)
  from play_starts [OF np cr, of now] show "effects (set_slider_value True now v s) =
           effects s @ (if play_obj s \<noteq> None then [Sa_stop] else []) @ [Sa_play w] @
           (if progress_thread s = None \<or> progress_thread s = Some False then [Thread_start]
            else [])"
    by (simp add: eq ef th)
qed

lemma seek_restart_fails:
  assumes "playing s" and "min (max v 0) (seconds (combined_audio s)) \<noteq> slider_value s"
    and "create_wav_obj_from_position s (min (max v 0) (seconds (combined_audio s))) = None"
  shows "play_obj (set_slider_value True now v s) = play_obj s"
    and "effects (set_slider_value True now v s) =
           effects s @ (if play_obj s \<noteq> None then [Sa_stop] else []) @ [Print_error]"
proof -
  define v1 where "v1 = min (max v 0) (seconds (combined_audio s))"
  define t where "t = (pause True (s\<lparr>slider_value := v1\<rparr>))\<lparr>current_position := v1\<rparr>"
  have eq: "set_slider_value True now v s = play True now t"
    unfolding t_def using assms(1,2) by (intro seek_restart_state) (simp_all add: v1_def)
  have np: "\<not> playing t" by (simp add: t_def pause_playing)
  have sv: "slider_value t = v1" by (simp add: t_def pause_fields)
  have "create_wav_obj_from_position t v1 = create_wav_obj_from_position s v1"
    by (rule create_frames_only) (simp_all add: t_def pause_thread)
  with assms(3) have cr: "create_wav_obj_from_position t (slider_value t) = None"
    by (simp add: sv v1_def)
  have ef: "effects t = effects s @ (if play_obj s \<noteq> None then [Sa_stop] else [])"
    using assms(1) by (simp add: t_def pause_effects)
  have po: "play_obj t = play_obj s" by (simp add: t_def pause_fields)
  from play_fails [OF np cr, of now] show "play_obj (set_slider_value True now v s) = play_obj s"
    by (simp add: eq po)
  from play_fails [OF np cr, of now] show "effects (set_slider_value True now v s) =
           effects s @ (if play_obj s \<noteq> None then [Sa_stop] else []) @ [Print_error]"
    by (simp add: eq ef)
qed

text \<open>
  Claim C6, as amended. An offset reaches playback as the value of the slider, which stays
  in the closed range from 0 to the total duration: a requested value outside is replaced
  by the nearer end. \<open>play\<close> starts from the slider's value: when the frame of that
  value lies in the file, simpleaudio is handed the frames from that frame to the end of
  the file. When the player is playing and the slider's value changes, the running
  playback is stopped and playback starts again in the same way from the new value; when
  the value does not change, nothing happens; when the player is not playing, moving the
  slider starts nothing. Nothing is clamped in \<open>_create_wav_obj_from_position\<close>: it
  returns \<open>None\<close> exactly when the frame of the position is outside the file, and
  \<open>play\<close> then has printed the error and starts no playback.
\<close>

theorem slider_bounds_offset:
  "0 \<le> slider_value (set_slider_value h now v s) \<and>
   slider_value (set_slider_value h now v s) \<le> seconds (combined_audio s) \<and>
   slider_value (set_slider_value h now v s) = min (max v 0) (seconds (combined_audio s)) \<and>
   (playing s \<and> min (max v 0) (seconds (combined_audio s)) \<noteq> slider_value s \<longrightarrow>
      playing (set_slider_value h now v s) \<and>
      start_position (set_slider_value h now v s) = min (max v 0) (seconds (combined_audio s))) \<and>
   (playing s \<and> min (max v 0) (seconds (combined_audio s)) = slider_value s \<longrightarrow>
      set_slider_value h now v s = s) \<and>
   (\<not> playing s \<longrightarrow>
      \<not> playing (set_slider_value h now v s) \<and>
      effects (set_slider_value h now v s) = effects s) \<and>
   (\<not> playing s \<longrightarrow>
      playing (play h now s) \<and> start_position (play h now s) = slider_value s) \<and>
   (create_wav_obj_from_position s p = None \<longleftrightarrow>
      int_of_float (p * real (frame_rate s)) < 0 \<or>
      int (n_frames s) < int_of_float (p * real (frame_rate s))) \<and>
   (0 \<le> int_of_float (p * real (frame_rate s)) \<and>
    int_of_float (p * real (frame_rate s)) \<le> int (n_frames s) \<longrightarrow>
      create_wav_obj_from_position s p =
        Some (WaveObject (nat (int_of_float (p * real (frame_rate s))))
                (n_frames s - nat (int_of_float (p * real (frame_rate s)))))) \<and>
   (\<not> playing s \<and> create_wav_obj_from_position s (slider_value s) = Some w \<longrightarrow>
      play_obj (play True now s) = Some w \<and>
      effects (play True now s) =
        effects s @ [Sa_play w] @
        (if progress_thread s = None \<or> progress_thread s = Some False then [Thread_start]
         else [])) \<and>
   (\<not> playing s \<and> create_wav_obj_from_position s (slider_value s) = None \<longrightarrow>
      effects (play True now s) = effects s @ [Print_error] \<and>
      play_obj (play True now s) = play_obj s) \<and>
   (playing s \<and> min (max v 0) (seconds (combined_audio s)) \<noteq> slider_value s \<and>
    create_wav_obj_from_position s (min (max v 0) (seconds (combined_audio s))) = Some w \<longrightarrow>
      play_obj (set_slider_value True now v s) = Some w \<and>
      effects (set_slider_value True now v s) =
        effects s @ (if play_obj s \<noteq> None then [Sa_stop] else []) @ [Sa_play w] @
        (if progress_thread s = None \<or> progress_thread s = Some False then [Thread_start]
         else [])) \<and>
   (playing s \<and> min (max v 0) (seconds (combined_audio s)) \<noteq> slider_value s \<and>
    create_wav_obj_from_position s (min (max v 0) (seconds (combined_audio s))) = None \<longrightarrow>
      play_obj (set_slider_value True now v s) = play_obj s \<and>
      effects (set_slider_value True now v s) =
        effects s @ (if play_obj s \<noteq> None then [Sa_stop] else []) @ [Print_error])"
proof -
  have a: "0 \<le> slider_value (set_slider_value h now v s) \<and>
      slider_value (set_slider_value h now v s) \<le> seconds (combined_audio s) \<and>
      slider_value (set_slider_value h now v s) = min (max v 0) (seconds (combined_audio s))"
    by (simp add: ssv_slider seconds_nonneg)
  have b: "playing s \<and> min (max v 0) (seconds (combined_audio s)) \<noteq> slider_value s \<longrightarrow>
      playing (set_slider_value h now v s) \<and>
      start_position (set_slider_value h now v s) = min (max v 0) (seconds (combined_audio s))"
    by (simp add: ssv_fields ssv_restart)
  have b': "playing s \<and> min (max v 0) (seconds (combined_audio s)) = slider_value s \<longrightarrow>
      set_slider_value h now v s = s"
    by (simp add: set_slider_value_def Let_def)
  have c': "\<not> playing s \<longrightarrow>
      \<not> playing (set_slider_value h now v s) \<and>
      effects (set_slider_value h now v s) = effects s"
    by (simp add: ssv_fields ssv_effects_idle)
  have c: "\<not> playing s \<longrightarrow>
      playing (play h now s) \<and> start_position (play h now s) = slider_value s"
    by (simp add: play_playing play_anchor)
  have d: "create_wav_obj_from_position s p = None \<longleftrightarrow>
      int_of_float (p * real (frame_rate s)) < 0 \<or>
      int (n_frames s) < int_of_float (p * real (frame_rate s))"
    by (simp add: create_wav_obj_from_position_def Let_def)
  have d': "0 \<le> int_of_float (p * real (frame_rate s)) \<and>
      int_of_float (p * real (frame_rate s)) \<le> int (n_frames s) \<longrightarrow>
      create_wav_obj_from_position s p =
        Some (WaveObject (nat (int_of_float (p * real (frame_rate s))))
                (n_frames s - nat (int_of_float (p * real (frame_rate s)))))"
    by (simp add: create_in_range)
  have g: "\<not> playing s \<and> create_wav_obj_from_position s (slider_value s) = Some w \<longrightarrow>
      play_obj (play True now s) = Some w \<and>
      effects (play True now s) =
        effects s @ [Sa_play w] @
        (if progress_thread s = None \<or> progress_thread s = Some False then [Thread_start]
         else [])"
    using play_starts [of s w now] by blast
  have e: "\<not> playing s \<and> create_wav_obj_from_position s (slider_value s) = None \<longrightarrow>
      effects (play True now s) = effects s @ [Print_error] \<and>
      play_obj (play True now s) = play_obj s"
    using play_fails [of s now] by blast
  have i: "playing s \<and> min (max v 0) (seconds (combined_audio s)) \<noteq> slider_value s \<and>
      create_wav_obj_from_position s (min (max v 0) (seconds (combined_audio s))) = Some w \<longrightarrow>
      play_obj (set_slider_value True now v s) = Some w \<and>
      effects (set_slider_value True now v s) =
        effects s @ (if play_obj s \<noteq> None then [Sa_stop] else []) @ [Sa_play w] @
        (if progress_thread s = None \<or> progress_thread s = Some False then [Thread_start]
         else [])"
    using seek_restarts [of s v w now] by blast
  have j: "playing s \<and> min (max v 0) (seconds (combined_audio s)) \<noteq> slider_value s \<and>
      create_wav_obj_from_position s (min (max v 0) (seconds (combined_audio s))) = None \<longrightarrow>
      play_obj (set_slider_value True now v s) = play_obj s \<and>
      effects (set_slider_value True now v s) =
        effects s @ (if play_obj s \<noteq> None then [Sa_stop] else []) @ [Print_error]"
    using seek_restart_fails [of s v now] by blast
  from a b b' c' c d d' g e i j show ?thesis by (intro conjI) blast+
qed

lemma sample_frames:
  "create_wav_obj_from_position sample_player 0 = Some (WaveObject 0 12500)"
  "create_wav_obj_from_position ticking_player 5 = Some (WaveObject 5000 7500)"
  "create_wav_obj_from_position ticking_player (25 / 2) = Some (WaveObject 12500 0)"
  by (simp_all add: create_wav_obj_from_position_def int_of_float_def Let_def
      sample_player_def ticking_player_def)

text \<open>
  Claim C6, as amended, on a merged file of 12.5 s at 1000 frames a second: a request of
  5 s during playback restarts it at frame 5000, a request of 20 s at frame 12500, and
  \<open>play\<close> with the slider at 0 starts at frame 0.
\<close>

theorem slider_bounds_offset_witness:
  "playing ticking_player \<and>
   slider_value (set_slider_value True 101 5 ticking_player) = 5 \<and>
   start_position (set_slider_value True 101 5 ticking_player) = 5 \<and>
   play_obj (set_slider_value True 101 5 ticking_player) = Some (WaveObject 5000 7500) \<and>
   effects (set_slider_value True 101 5 ticking_player) =
     [Sa_stop, Sa_play (WaveObject 5000 7500)] \<and>
   slider_value (set_slider_value True 101 20 ticking_player) = 25 / 2 \<and>
   start_position (set_slider_value True 101 20 ticking_player) = 25 / 2 \<and>
   effects (set_slider_value True 101 20 ticking_player) =
     [Sa_stop, Sa_play (WaveObject 12500 0)] \<and>
   \<not> playing sample_player \<and>
   playing (play True 0 sample_player) \<and>
   start_position (play True 0 sample_player) = 0 \<and>
   effects (play True 0 sample_player) = [Sa_play (WaveObject 0 12500), Thread_start]"
proof -
  have a: "playing ticking_player" by (simp add: ticking_player_def)
  have t: "seconds (combined_audio ticking_player) = 25 / 2"
    by (simp add: ticking_player_def sample_player_def seconds_def)
  have c: "slider_value ticking_player = 0" "play_obj ticking_player \<noteq> None"
    "progress_thread ticking_player = Some True" "effects ticking_player = []"
    by (simp_all add: ticking_player_def sample_player_def)
  have d: "\<not> playing sample_player" "slider_value sample_player = 0"
    "progress_thread sample_player = None" "effects sample_player = []"
    by (simp_all add: sample_player_def)
  from slider_bounds_offset [of True 101 5 ticking_player _ "WaveObject 5000 7500"]
       slider_bounds_offset [of True 101 20 ticking_player _ "WaveObject 12500 0"]
       slider_bounds_offset [of True 0 0 sample_player _ "WaveObject 0 12500"]
       a c d sample_frames
  show ?thesis by (simp add: t)
qed

text \<open>
  Claim C6 as stated fails: a request of 20 s on a merged file of 12.5 s starts playback
  at 12.5 s, which is not below the total duration; and \<open>_create_wav_obj_from_position\<close>
  at 20 s returns \<open>None\<close> instead of clamping.
\<close>

theorem offset_at_total_not_clamped:
  "seconds (combined_audio sample_player) = 25 / 2 \<and>
   slider_value (set_slider_value True 0 20 sample_player) = 25 / 2 \<and>
   start_position (play True 0 (set_slider_value True 0 20 sample_player)) = 25 / 2 \<and>
   \<not> start_position (play True 0 (set_slider_value True 0 20 sample_player))
       < seconds (combined_audio sample_player) \<and>
   create_wav_obj_from_position sample_player 20 = None"
proof -
  have t: "seconds (combined_audio sample_player) = 25 / 2"
    by (simp add: sample_player_def seconds_def)
  have sl: "slider_value (set_slider_value True 0 20 sample_player) = 25 / 2"
    by (simp add: ssv_slider t)
  have np: "\<not> playing (set_slider_value True 0 20 sample_player)"
    by (simp add: ssv_fields sample_player_def)
  have sp: "start_position (play True 0 (set_slider_value True 0 20 sample_player)) = 25 / 2"
    by (simp add: play_anchor np sl)
  have cr: "create_wav_obj_from_position sample_player 20 = None"
    by (simp add: create_wav_obj_from_position_def int_of_float_def sample_player_def Let_def)
  from t sl sp cr show ?thesis by simp
qed

lemma get_wav_files_sample:
  "get_wav_files sample_listdir ''out'' = Inr sample_files"
  "get_wav_files sample_listdir ''empty'' = Inr []"
  "get_wav_files sample_listdir ''nowhere'' = Inl OSError"
  by (simp_all add: get_wav_files_def sample_listdir_def sample_files_def endswith_def
      lower_def lower_char_def path_join_def less_eq_char_def)

text \<open>
  Claim C4, as amended. \<open>combine_wav_files\<close> raises \<open>ValueError\<close> on the empty list.
  The constructor does not reach it when the folder has no WAV file: it prints a warning
  and returns, and the object it leaves has \<open>wav_files\<close>, the empty list, as its only
  attribute.
\<close>

theorem empty_folder_returns_bare_player:
  "combine_wav_files from_wav [] gap_seconds = Inl ValueError \<and>
   (get_wav_files listdir folder = Inr [] \<longrightarrow>
      AudioPlayer_init listdir from_wav export temp_name folder gap_seconds =
        Inr ([Warning_no_wav], Bare []))"
  by (simp add: combine_wav_files_def AudioPlayer_init_def)

text \<open>Claim C4, as amended, on a folder that holds one text file.\<close>

theorem empty_folder_returns_bare_player_witness:
  "get_wav_files sample_listdir ''empty'' = Inr [] \<and>
   combine_wav_files sample_wav [] 3 = Inl ValueError \<and>
   AudioPlayer_init sample_listdir sample_wav sample_export ''tmp.wav'' ''empty'' 3 =
     Inr ([Warning_no_wav], Bare [])"
proof -
  have a: "get_wav_files sample_listdir ''empty'' = Inr []"
    by (rule get_wav_files_sample)
  from empty_folder_returns_bare_player
         [of sample_wav 3 sample_listdir "''empty''" sample_export "''tmp.wav''"] a
  show ?thesis by simp
qed

text \<open>
  Claim C4 as stated fails: on a folder without WAV files the constructor returns an
  object and raises nothing.
\<close>

theorem empty_folder_construction_succeeds:
  "AudioPlayer_init sample_listdir sample_wav sample_export ''tmp.wav'' ''empty'' 3 =
     Inr ([Warning_no_wav], Bare []) \<and>
   AudioPlayer_init sample_listdir sample_wav sample_export ''tmp.wav'' ''empty'' 3
     \<noteq> Inl ValueError"
  by (simp add: AudioPlayer_init_def get_wav_files_sample)

lemma sample_construction:
  "AudioPlayer_init sample_listdir sample_wav sample_export ''tmp.wav'' ''out'' 3 =
     Inr ([Found_files 3], Ready sample_player)"
  by (simp add: AudioPlayer_init_def get_wav_files_sample sample_run sample_player_def
      sample_export_def) (simp add: sample_files_def)

end
